theory Spec2Isabelle
  imports Main
begin

section \<open>Data model (src/types.ts)\<close>

text \<open>
  The interfaces of \<^verbatim>\<open>types.ts\<close> become records. An optional property
  (\<^verbatim>\<open>text?: string\<close>) is an \<open>option\<close>; \<open>None\<close> is JavaScript's
  \<^verbatim>\<open>undefined\<close>. Three interfaces have a property \<^verbatim>\<open>id\<close>, which is
  also a constant of HOL, so the fields of a message, a gallery item and a session carry the
  prefixes \<open>m_\<close>, \<open>g_\<close> and \<open>s_\<close>. Strings are lists of code units and
  \<^verbatim>\<open>Date.now()\<close> is a natural number of milliseconds.
\<close>

datatype Role = User | Model

record Message =
  m_id :: string
  m_role :: Role
  m_text :: "string option"
  m_imageUrl :: "string option"
  m_originalImageUrl :: "string option"
  m_isThinking :: "bool option"
  m_timestamp :: nat

text \<open>
  The browser's \<^verbatim>\<open>File\<close> object is opaque to the program: a handle. The
  property \<^verbatim>\<open>file\<close> is a keyword of Isabelle, so the field is \<open>fileObj\<close>.
\<close>

type_synonym File = nat

record ImageFile =
  fileObj :: "File option"
  previewUrl :: string
  base64 :: string
  mimeType :: string

record GalleryItem =
  g_id :: string
  g_imageUrl :: string
  g_prompt :: string
  g_timestamp :: nat
  g_messageId :: "string option"
  g_sessionId :: "string option"

record ChatSession =
  s_id :: string
  s_title :: string
  s_messages :: "Message list"
  s_lastImage :: "ImageFile option"
  s_updatedAt :: nat

text \<open>
  \<^verbatim>\<open>Partial<ChatSession>\<close>: every property may be missing from the object.
  \<open>None\<close> is a missing key. The one optional property of a session,
  \<^verbatim>\<open>lastImage\<close>, can also be present with the value \<^verbatim>\<open>undefined\<close>
  (\<open>Some None\<close>), which the object spread copies like any other value.
\<close>

record SessionUpdates =
  u_id :: "string option"
  u_title :: "string option"
  u_messages :: "Message list option"
  u_lastImage :: "ImageFile option option"
  u_updatedAt :: "nat option"

definition noUpdates :: SessionUpdates where
  "noUpdates = \<lparr>u_id = None, u_title = None, u_messages = None, u_lastImage = None,
     u_updatedAt = None\<rparr>"

section \<open>JavaScript primitives used by App.tsx\<close>

text \<open>
  Truthiness of an optional string: \<^verbatim>\<open>undefined\<close> and the empty string are
  falsy. \<open>orElse\<close> is \<^verbatim>\<open>a || b\<close> on such a value.
\<close>

fun truthy :: "string option \<Rightarrow> bool" where
  "truthy None = False"
| "truthy (Some s) = (s \<noteq> [])"

definition orElse :: "string \<Rightarrow> string \<Rightarrow> string" where
  "orElse a b = (if a = [] then b else a)"

text \<open>
  \<^verbatim>\<open>String.prototype.trim\<close>. A \<open>char\<close> is a code unit below 256, and the
  white space and line terminators of JavaScript in that range are TAB, LF, VT, FF, CR,
  SPACE and the no-break space.
\<close>

definition isWhiteSpace :: "char \<Rightarrow> bool" where
  "isWhiteSpace c =
     (c \<in> set [CHR 0x09, CHR 0x0A, CHR 0x0B, CHR 0x0C, CHR 0x0D, CHR 0x20, CHR 0xA0])"

definition trim :: "string \<Rightarrow> string" where
  "trim s = rev (dropWhile isWhiteSpace (rev (dropWhile isWhiteSpace s)))"

text \<open>\<^verbatim>\<open>Number.prototype.toString\<close> on a non-negative integer: its decimal digits.\<close>

fun toString :: "nat \<Rightarrow> string" where
  "toString n =
     (if n < 10 then [''0123456789'' ! n]
      else toString (n div 10) @ [''0123456789'' ! (n mod 10)])"

declare toString.simps [simp del]

text \<open>
  A run of a handler reads \<^verbatim>\<open>Date.now()\<close> several times. A \<open>Clock\<close> gives
  the value of each read of one run, numbered from 0 in the order of the source text, so
  that the model does not assume that two reads agree.
\<close>

type_synonym Clock = "nat \<Rightarrow> nat"

section \<open>Component state (App.tsx, lines 12-45)\<close>

datatype View = Chat | Gallery

record AppState =
  currentView :: View
  sidebarOpen :: bool
  sessions :: "ChatSession list"
  currentSessionId :: string
  gallery :: "GalleryItem list"
  inputText :: string
  selectedImage :: "ImageFile option"
  isLoading :: bool

definition welcomeText :: string where
  "welcomeText = ''Welcome to ReChange by Bhavya Tamboli. I'm powered by the advanced Nano Banana model. Upload an image to start transforming your fashion or photos instantly.''"

text \<open>The \<^verbatim>\<open>useState\<close> initial values; the two clock reads are those of the first render.\<close>

definition initialState :: "Clock \<Rightarrow> AppState" where
  "initialState clk =
     \<lparr>currentView = Chat, sidebarOpen = True,
      sessions = [\<lparr>s_id = ''default'', s_title = ''New Project'',
                   s_messages = [\<lparr>m_id = ''welcome'', m_role = Model,
                                   m_text = Some welcomeText, m_imageUrl = None,
                                   m_originalImageUrl = None, m_isThinking = None,
                                   m_timestamp = clk 0\<rparr>],
                   s_lastImage = None, s_updatedAt = clk 1\<rparr>],
      currentSessionId = ''default'', gallery = [], inputText = [],
      selectedImage = None, isLoading = False\<rparr>"

text \<open>
  Line 44: \<^verbatim>\<open>sessions.find(s => s.id === currentSessionId) || sessions[0]\<close>. On an
  empty list the result is \<^verbatim>\<open>undefined\<close> (\<open>None\<close>), and line 45 then throws.
\<close>

definition currentSession :: "AppState \<Rightarrow> ChatSession option" where
  "currentSession st =
     (case find (\<lambda>s. s_id s = currentSessionId st) (sessions st) of
        Some s \<Rightarrow> Some s
      | None \<Rightarrow> (case sessions st of [] \<Rightarrow> None | s # _ \<Rightarrow> Some s))"

section \<open>updateSession (App.tsx, lines 177-179)\<close>

text \<open>
  \<^verbatim>\<open>{ ...s, ...updates, updatedAt: Date.now() }\<close>: the keys of \<open>updates\<close>
  overwrite those of \<open>s\<close>, and \<open>updatedAt\<close>, written last, overwrites both.
\<close>

definition mergeSession :: "ChatSession \<Rightarrow> SessionUpdates \<Rightarrow> nat \<Rightarrow> ChatSession" where
  "mergeSession s u now =
     \<lparr>s_id = (case u_id u of None \<Rightarrow> s_id s | Some v \<Rightarrow> v),
      s_title = (case u_title u of None \<Rightarrow> s_title s | Some v \<Rightarrow> v),
      s_messages = (case u_messages u of None \<Rightarrow> s_messages s | Some v \<Rightarrow> v),
      s_lastImage = (case u_lastImage u of None \<Rightarrow> s_lastImage s | Some v \<Rightarrow> v),
      s_updatedAt = now\<rparr>"

text \<open>
  The updater given to \<^verbatim>\<open>setSessions\<close>, applied to the list \<open>prev\<close>.
  \<open>now\<close> is what \<^verbatim>\<open>Date.now()\<close> returns inside it.
\<close>

definition updateSession ::
  "nat \<Rightarrow> string \<Rightarrow> SessionUpdates \<Rightarrow> ChatSession list \<Rightarrow> ChatSession list" where
  "updateSession now sessionId updates prev =
     map (\<lambda>s. if s_id s = sessionId then mergeSession s updates now else s) prev"

section \<open>Session handlers (App.tsx, lines 77-120)\<close>

text \<open>
  Each handler is a function from the state it runs in to the state after it. What a handler
  reads from outside the component is an argument: the clock, and \<open>innerWidth\<close> for
  \<^verbatim>\<open>window.innerWidth\<close>.
\<close>

definition createNewSession :: "Clock \<Rightarrow> nat \<Rightarrow> AppState \<Rightarrow> AppState" where
  "createNewSession clk innerWidth st =
     (let newId = toString (clk 0);
          newSession = \<lparr>s_id = newId, s_title = ''Untitled Project'', s_messages = [],
                         s_lastImage = None, s_updatedAt = clk 1\<rparr>
      in st\<lparr>sessions := newSession # sessions st,
             currentSessionId := newId,
             currentView := Chat,
             selectedImage := None,
             sidebarOpen := (if innerWidth < 1024 then False else sidebarOpen st)\<rparr>)"

definition switchSession :: "string \<Rightarrow> nat \<Rightarrow> AppState \<Rightarrow> AppState" where
  "switchSession sid innerWidth st =
     st\<lparr>currentSessionId := sid,
         currentView := Chat,
         sidebarOpen := (if innerWidth < 1024 then False else sidebarOpen st)\<rparr>"

definition defaultWelcomeText :: string where
  "defaultWelcomeText = ''Welcome to ReChange by Bhavya Tamboli. Start creating by uploading an image.''"

definition defaultSession :: "Clock \<Rightarrow> ChatSession" where
  "defaultSession clk =
     \<lparr>s_id = toString (clk 0), s_title = ''New Project'',
      s_messages = [\<lparr>m_id = ''welcome'', m_role = Model, m_text = Some defaultWelcomeText,
                      m_imageUrl = None, m_originalImageUrl = None, m_isThinking = None,
                      m_timestamp = clk 1\<rparr>],
      s_lastImage = None, s_updatedAt = clk 2\<rparr>"

text \<open>
  \<open>deleteSession\<close> filters the rendered list. \<^verbatim>\<open>newSessions[0]\<close> is read only
  under the test \<^verbatim>\<open>newSessions.length > 0\<close>, which the \<open>case\<close> on the list is.
\<close>

definition deleteSession :: "Clock \<Rightarrow> string \<Rightarrow> AppState \<Rightarrow> AppState" where
  "deleteSession clk sid st =
     (let newSessions = filter (\<lambda>s. s_id s \<noteq> sid) (sessions st) in
      case newSessions of
        [] \<Rightarrow> st\<lparr>sessions := [defaultSession clk], currentSessionId := toString (clk 0)\<rparr>
      | s0 # _ \<Rightarrow>
          if currentSessionId st = sid
          then st\<lparr>sessions := newSessions, currentSessionId := s_id s0\<rparr>
          else st\<lparr>sessions := newSessions\<rparr>)"

section \<open>deleteFromGallery (App.tsx, lines 123-150)\<close>

definition clearImage :: "string option \<Rightarrow> Message \<Rightarrow> Message" where
  "clearImage messageId msg =
     (if Some (m_id msg) = messageId then msg\<lparr>m_imageUrl := None\<rparr> else msg)"

definition unlinkImage :: "GalleryItem \<Rightarrow> ChatSession \<Rightarrow> ChatSession" where
  "unlinkImage itemToDelete session =
     (if Some (s_id session) = g_sessionId itemToDelete
      then session\<lparr>s_messages := map (clearImage (g_messageId itemToDelete)) (s_messages session)\<rparr>
      else session)"

definition deleteFromGallery :: "string \<Rightarrow> AppState \<Rightarrow> AppState" where
  "deleteFromGallery itemId st =
     (let itemToDelete = find (\<lambda>g. g_id g = itemId) (gallery st);
          st1 = st\<lparr>gallery := filter (\<lambda>g. g_id g \<noteq> itemId) (gallery st)\<rparr>
      in case itemToDelete of
           None \<Rightarrow> st1
         | Some it \<Rightarrow>
             if truthy (g_sessionId it) \<and> truthy (g_messageId it)
             then st1\<lparr>sessions := map (unlinkImage it) (sessions st)\<rparr>
             else st1)"

section \<open>Image selection (App.tsx, lines 152-175)\<close>

text \<open>
  \<open>handleFileSelect\<close> gets the chosen file (a handle and its MIME type), the result of
  \<^verbatim>\<open>fileToBase64\<close> (\<open>None\<close> when that promise rejects) and the URL that
  \<^verbatim>\<open>URL.createObjectURL\<close> returns.
\<close>

record PickedFile =
  pf_handle :: File
  pf_type :: string

definition handleFileSelect ::
  "PickedFile option \<Rightarrow> string option \<Rightarrow> string \<Rightarrow> AppState \<Rightarrow> AppState" where
  "handleFileSelect picked encoded url st =
     (case picked of
        None \<Rightarrow> st
      | Some f \<Rightarrow>
          if take 6 (pf_type f) \<noteq> ''image/'' then st
          else (case encoded of
                  None \<Rightarrow> st
                | Some b \<Rightarrow>
                    st\<lparr>selectedImage :=
                         Some \<lparr>fileObj = Some (pf_handle f), previewUrl = url, base64 = b,
                               mimeType = pf_type f\<rparr>\<rparr>))"

definition handleRemoveImage :: "AppState \<Rightarrow> AppState" where
  "handleRemoveImage st = st\<lparr>selectedImage := None\<rparr>"

section \<open>handleSend (App.tsx, lines 181-298)\<close>

text \<open>
  \<open>handleSend\<close> is an \<^verbatim>\<open>async\<close> function. It runs up to its \<^verbatim>\<open>await\<close>
  in the state it was called in, and its continuation runs later, in the state of that
  moment, on the variables the call captured. The model has one function for each part, and
  the captured variables are a record.

  The external call \<^verbatim>\<open>generateEditedImage(prompt, base64, mimeType)\<close> is an
  \<open>ApiRequest\<close>. The promise resolves to an object with an optional text and an
  optional image URL, or rejects.
\<close>

record ApiRequest =
  r_prompt :: string
  r_base64 :: string
  r_mimeType :: string

record ApiResult =
  a_text :: "string option"
  a_imageUrl :: "string option"

datatype ApiOutcome = Resolved ApiResult | Rejected

record SendClosure =
  c_sessionId :: string
  c_lastImage :: "ImageFile option"
  c_selectedImage :: "ImageFile option"
  c_updatedMessages :: "Message list"
  c_prompt :: string

record TimerClosure =
  t_sessionId :: string
  t_messages :: "Message list"
  t_userMsg :: Message

datatype SendPhase =
    Returned
  | Scheduled TimerClosure
  | Awaiting ApiRequest SendClosure

datatype Error = TypeError

text \<open>
  Lines 183-188: the new upload if there is one, else the image the session remembers. An
  object is truthy, so the tests are tests for \<^verbatim>\<open>null\<close> and
  \<^verbatim>\<open>undefined\<close>.
\<close>

definition imageToUse :: "AppState \<Rightarrow> ChatSession \<Rightarrow> ImageFile option" where
  "imageToUse st cur =
     (case selectedImage st of Some img \<Rightarrow> Some img | None \<Rightarrow> s_lastImage cur)"

text \<open>Lines 238-242: the three arguments of the call to the service.\<close>

definition requestFor :: "string \<Rightarrow> ImageFile \<Rightarrow> ApiRequest" where
  "requestFor prompt img =
     \<lparr>r_prompt = orElse prompt ''Enhance this image'', r_base64 = base64 img,
      r_mimeType = mimeType img\<rparr>"

text \<open>
  The part before the \<^verbatim>\<open>await\<close>. It ends in one of three ways: it has returned
  at line 190, it has returned at line 208 with a timer set, or it has called the service
  and waits. Reading a property of an undefined \<open>currentSession\<close> throws.
\<close>

definition handleSend_sync :: "Clock \<Rightarrow> AppState \<Rightarrow> Error + (AppState \<times> SendPhase)" where
  "handleSend_sync clk st =
     (case currentSession st of
        None \<Rightarrow> Inl TypeError
      | Some cur \<Rightarrow>
          if trim (inputText st) = [] \<and> imageToUse st cur = None then Inr (st, Returned)
             else (case imageToUse st cur of
                None \<Rightarrow>
                  let userMsg = \<lparr>m_id = toString (clk 0), m_role = User,
                                 m_text = Some (inputText st), m_imageUrl = None,
                                 m_originalImageUrl = None, m_isThinking = None,
                                 m_timestamp = clk 1\<rparr>
                  in Inr (st\<lparr>sessions :=
                                updateSession (clk 2) (currentSessionId st)
                                  (noUpdates\<lparr>u_messages := Some (s_messages cur @ [userMsg])\<rparr>)
                                  (sessions st),
                              inputText := []\<rparr>,
                          Scheduled \<lparr>t_sessionId = currentSessionId st,
                                     t_messages = s_messages cur, t_userMsg = userMsg\<rparr>)
              | Some img \<Rightarrow>
                  let prompt = inputText st;
                      userMsg = \<lparr>m_id = toString (clk 0), m_role = User, m_text = Some prompt,
                                 m_imageUrl = None,
                                 m_originalImageUrl = map_option previewUrl (selectedImage st),
                                 m_isThinking = None, m_timestamp = clk 1\<rparr>;
                      updatedMessages = s_messages cur @ [userMsg];
                      newTitle = (if length (s_messages cur) \<le> 1
                                  then orElse (take 25 prompt) ''Image Edit''
                                  else s_title cur)
                  in Inr (st\<lparr>sessions :=
                                updateSession (clk 2) (currentSessionId st)
                                  (noUpdates\<lparr>u_messages := Some updatedMessages,
                                             u_title := Some newTitle\<rparr>)
                                  (sessions st),
                              inputText := [],
                              selectedImage := None,
                              isLoading := True\<rparr>,
                          Awaiting (requestFor prompt img)
                                   \<lparr>c_sessionId = currentSessionId st,
                                    c_lastImage = s_lastImage cur,
                                    c_selectedImage = selectedImage st,
                                    c_updatedMessages = updatedMessages,
                                    c_prompt = prompt\<rparr>)))"

text \<open>The callback of \<^verbatim>\<open>setTimeout\<close> (lines 199-207), run in the state of its moment.\<close>

definition timerFires :: "Clock \<Rightarrow> TimerClosure \<Rightarrow> AppState \<Rightarrow> AppState" where
  "timerFires clk t st =
     (let botMsg = \<lparr>m_id = toString (clk 0 + 1), m_role = Model,
                    m_text = Some ''I need an image to start working. Please upload one first.'',
                    m_imageUrl = None, m_originalImageUrl = None, m_isThinking = None,
                    m_timestamp = clk 1\<rparr>
      in st\<lparr>sessions :=
               updateSession (clk 2) (t_sessionId t)
                 (noUpdates\<lparr>u_messages := Some (t_messages t @ [t_userMsg t, botMsg])\<rparr>)
                 (sessions st)\<rparr>)"

text \<open>
  The continuation after the \<^verbatim>\<open>await\<close> (lines 244-297): the rest of the
  \<^verbatim>\<open>try\<close> block when the promise resolves, the \<^verbatim>\<open>catch\<close> block when it
  rejects, and the \<^verbatim>\<open>finally\<close> block after either.
  \<^verbatim>\<open>extractBase64FromDataUrl\<close> is imported from the service module, which is not
  part of the sources at hand: it is a parameter, a function on strings.
\<close>

definition errorText :: string where
  "errorText = ''Something went wrong. Please try again.''"

definition defaultResultText :: string where
  "defaultResultText = ''Here is your result.''"

definition handleSend_resume ::
  "(string \<Rightarrow> string) \<Rightarrow> Clock \<Rightarrow> SendClosure \<Rightarrow> ApiOutcome \<Rightarrow> AppState \<Rightarrow> AppState" where
  "handleSend_resume extractBase64FromDataUrl clk c outcome st =
     (case outcome of
        Resolved res \<Rightarrow>
          let responseMsgId = toString (clk 0 + 1);
              modelMsg = \<lparr>m_id = responseMsgId, m_role = Model,
                          m_text = Some (if truthy (a_text res) then the (a_text res)
                                         else defaultResultText),
                          m_imageUrl = (if truthy (a_imageUrl res) then a_imageUrl res else None),
                          m_originalImageUrl = None, m_isThinking = None,
                          m_timestamp = clk 1\<rparr>
          in if truthy (a_imageUrl res)
             then
               let imageUrl = the (a_imageUrl res);
                   nextImageContext = \<lparr>fileObj = None, previewUrl = imageUrl,
                                       base64 = extractBase64FromDataUrl imageUrl,
                                       mimeType = ''image/png''\<rparr>;
                   item = \<lparr>g_id = toString (clk 2), g_imageUrl = imageUrl,
                           g_prompt = c_prompt c, g_timestamp = clk 3,
                           g_messageId = Some responseMsgId,
                           g_sessionId = Some (c_sessionId c)\<rparr>
               in st\<lparr>gallery := item # gallery st,
                      sessions :=
                        updateSession (clk 4) (c_sessionId c)
                          (noUpdates\<lparr>u_messages := Some (c_updatedMessages c @ [modelMsg]),
                                     u_lastImage := Some (Some nextImageContext)\<rparr>)
                          (sessions st),
                      isLoading := False\<rparr>
             else
               let nextImageContext = (case c_selectedImage c of
                                         Some img \<Rightarrow> Some img
                                       | None \<Rightarrow> c_lastImage c)
               in st\<lparr>sessions :=
                        updateSession (clk 2) (c_sessionId c)
                          (noUpdates\<lparr>u_messages := Some (c_updatedMessages c @ [modelMsg]),
                                     u_lastImage := Some nextImageContext\<rparr>)
                          (sessions st),
                      isLoading := False\<rparr>
      | Rejected \<Rightarrow>
          let errMsg = \<lparr>m_id = toString (clk 0 + 1), m_role = Model, m_text = Some errorText,
                        m_imageUrl = None, m_originalImageUrl = None, m_isThinking = None,
                        m_timestamp = clk 1\<rparr>
          in st\<lparr>sessions :=
                   updateSession (clk 2) (c_sessionId c)
                     (noUpdates\<lparr>u_messages := Some (c_updatedMessages c @ [errMsg])\<rparr>)
                     (sessions st),
                 isLoading := False\<rparr>)"

text \<open>
  One whole invocation, with nothing else running between the call and its continuation.
  \<open>api\<close> is the behaviour of the external service on the request. The result is the
  final state, the list of calls to \<^verbatim>\<open>generateEditedImage\<close> that the invocation
  made, and the timer it left behind, if any.
\<close>

definition handleSend ::
  "(string \<Rightarrow> string) \<Rightarrow> Clock \<Rightarrow> Clock \<Rightarrow> (ApiRequest \<Rightarrow> ApiOutcome) \<Rightarrow> AppState
     \<Rightarrow> Error + (AppState \<times> ApiRequest list \<times> TimerClosure option)" where
  "handleSend ex clk clk' api st =
     (case handleSend_sync clk st of
        Inl e \<Rightarrow> Inl e
      | Inr (st1, Returned) \<Rightarrow> Inr (st1, [], None)
      | Inr (st1, Scheduled t) \<Rightarrow> Inr (st1, [], Some t)
      | Inr (st1, Awaiting req c) \<Rightarrow>
          Inr (handleSend_resume ex clk' c (api req) st1, [req], None))"

section \<open>The rendered controls (App.tsx, lines 542-593)\<close>

text \<open>The \<^verbatim>\<open>disabled\<close> attributes of the upload button, the text area and the send button.\<close>

definition uploadDisabled :: "AppState \<Rightarrow> bool" where
  "uploadDisabled st = isLoading st"

definition textAreaDisabled :: "AppState \<Rightarrow> bool" where
  "textAreaDisabled st = isLoading st"

definition sendDisabled :: "AppState \<Rightarrow> bool" where
  "sendDisabled st =
     ((trim (inputText st) = [] \<and> selectedImage st = None \<and>
       (case currentSession st of None \<Rightarrow> True | Some cur \<Rightarrow> s_lastImage cur = None))
      \<or> isLoading st)"

section \<open>The event loop\<close>

text \<open>
  The component together with what it has started and not yet finished: the calls to the
  service whose promises are pending, and the timers that have not fired.
\<close>

record World =
  app :: AppState
  pendingCalls :: "SendClosure list"
  pendingTimers :: "TimerClosure list"

definition initialWorld :: "Clock \<Rightarrow> World" where
  "initialWorld clk = \<lparr>app = initialState clk, pendingCalls = [], pendingTimers = []\<rparr>"

text \<open>
  What can happen next. A user event carries what the user and the environment supply; a
  settling promise or a firing timer names the pending entry by its position. The handlers
  run one at a time, each to its end or to its \<^verbatim>\<open>await\<close>.
\<close>

datatype Event =
    ClickNewProject Clock nat
  | ClickSession string nat
  | ClickDeleteSession Clock string
  | ClickDeleteFromGallery string
  | FileChosen "PickedFile option" "string option" string
  | ClickRemoveImage
  | TypeText string
  | ClickSend Clock
  | PressEnter Clock
  | PromiseSettles nat ApiOutcome Clock
  | TimeoutElapses nat Clock
  | ShowView View
  | SetSidebar bool

definition dropAt :: "nat \<Rightarrow> 'a list \<Rightarrow> 'a list" where
  "dropAt i xs = take i xs @ drop (Suc i) xs"

definition startSend :: "Clock \<Rightarrow> World \<Rightarrow> World option" where
  "startSend clk w =
     (case handleSend_sync clk (app w) of
        Inl e \<Rightarrow> None
      | Inr (st1, Returned) \<Rightarrow> Some (w\<lparr>app := st1\<rparr>)
      | Inr (st1, Scheduled t) \<Rightarrow> Some (w\<lparr>app := st1, pendingTimers := pendingTimers w @ [t]\<rparr>)
      | Inr (st1, Awaiting req c) \<Rightarrow>
          Some (w\<lparr>app := st1, pendingCalls := pendingCalls w @ [c]\<rparr>))"

text \<open>
  \<open>fire\<close> is \<open>None\<close> when the event cannot happen in this state: the control is
  disabled, the session is not in the list that is rendered, there is no such pending
  entry, or the render has thrown. The send button and the Enter key both reach
  \<open>handleSend\<close> (lines 300-305 and 580).
\<close>

definition fire :: "(string \<Rightarrow> string) \<Rightarrow> Event \<Rightarrow> World \<Rightarrow> World option" where
  "fire ex ev w =
     (case ev of
        ClickNewProject clk width \<Rightarrow> Some (w\<lparr>app := createNewSession clk width (app w)\<rparr>)
      | ClickSession sid width \<Rightarrow>
          if sid \<in> set (map s_id (sessions (app w)))
          then Some (w\<lparr>app := switchSession sid width (app w)\<rparr>) else None
      | ClickDeleteSession clk sid \<Rightarrow>
          if sid \<in> set (map s_id (sessions (app w)))
          then Some (w\<lparr>app := deleteSession clk sid (app w)\<rparr>) else None
      | ClickDeleteFromGallery itemId \<Rightarrow> Some (w\<lparr>app := deleteFromGallery itemId (app w)\<rparr>)
      | FileChosen picked encoded url \<Rightarrow>
          Some (w\<lparr>app := handleFileSelect picked encoded url (app w)\<rparr>)
      | ClickRemoveImage \<Rightarrow> Some (w\<lparr>app := handleRemoveImage (app w)\<rparr>)
      | TypeText s \<Rightarrow>
          if textAreaDisabled (app w) then None
          else Some (w\<lparr>app := (app w)\<lparr>inputText := s\<rparr>\<rparr>)
      | ClickSend clk \<Rightarrow> if sendDisabled (app w) then None else startSend clk w
      | PressEnter clk \<Rightarrow> if textAreaDisabled (app w) then None else startSend clk w
      | PromiseSettles i outcome clk \<Rightarrow>
          if i < length (pendingCalls w)
          then Some (w\<lparr>app := handleSend_resume ex clk (pendingCalls w ! i) outcome (app w),
                       pendingCalls := dropAt i (pendingCalls w)\<rparr>)
          else None
      | TimeoutElapses i clk \<Rightarrow>
          if i < length (pendingTimers w)
          then Some (w\<lparr>app := timerFires clk (pendingTimers w ! i) (app w),
                       pendingTimers := dropAt i (pendingTimers w)\<rparr>)
          else None
      | ShowView v \<Rightarrow> Some (w\<lparr>app := (app w)\<lparr>currentView := v\<rparr>\<rparr>)
      | SetSidebar b \<Rightarrow> Some (w\<lparr>app := (app w)\<lparr>sidebarOpen := b\<rparr>\<rparr>))"

text \<open>A run of the event loop: the events in their order, from a given world.\<close>

fun run :: "(string \<Rightarrow> string) \<Rightarrow> Event list \<Rightarrow> World \<Rightarrow> World option" where
  "run ex [] w = Some w"
| "run ex (ev # evs) w =
     (case fire ex ev w of None \<Rightarrow> None | Some w' \<Rightarrow> run ex evs w')"

section \<open>Invariants of the event loop\<close>

text \<open>
  The id in \<open>currentSessionId\<close> is the id of a session in the list, so line 44 finds
  the current session without its fallback.
\<close>

definition wellFormed :: "AppState \<Rightarrow> bool" where
  "wellFormed st = (currentSessionId st \<in> set (map s_id (sessions st)))"

text \<open>
  At most one call to the service is pending, and \<open>isLoading\<close> says whether one is.
\<close>

definition oneInFlight :: "World \<Rightarrow> bool" where
  "oneInFlight w = (length (pendingCalls w) \<le> 1 \<and> (isLoading (app w) = (pendingCalls w \<noteq> [])))"

text \<open>
  No id in use is the empty string, and every gallery item has a session id and a message
  id that are not empty, so the truthiness tests of \<open>deleteFromGallery\<close> succeed
  on it.
\<close>

definition linked :: "World \<Rightarrow> bool" where
  "linked w =
     (currentSessionId (app w) \<noteq> [] \<and>
      (\<forall>sid \<in> set (map s_id (sessions (app w))). sid \<noteq> []) \<and>
      (\<forall>c \<in> set (pendingCalls w). c_sessionId c \<noteq> []) \<and>
      (\<forall>g \<in> set (gallery (app w)). truthy (g_sessionId g) \<and> truthy (g_messageId g)))"

section \<open>The messages of a send\<close>

text \<open>
  The records that \<open>handleSend\<close> builds, named for the proofs: the user message of
  lines 213-219, the title of lines 225-228, the model message of lines 246-252 with its
  \<^verbatim>\<open>||\<close> written as a case distinction, and the message of the
  \<^verbatim>\<open>catch\<close> block.
\<close>

definition userMessage :: "Clock \<Rightarrow> AppState \<Rightarrow> Message" where
  "userMessage clk st =
     \<lparr>m_id = toString (clk 0), m_role = User, m_text = Some (inputText st),
      m_imageUrl = None, m_originalImageUrl = map_option previewUrl (selectedImage st),
      m_isThinking = None, m_timestamp = clk 1\<rparr>"

definition newTitle :: "AppState \<Rightarrow> ChatSession \<Rightarrow> string" where
  "newTitle st cur =
     (if length (s_messages cur) \<le> 1 then orElse (take 25 (inputText st)) ''Image Edit''
      else s_title cur)"

definition modelMessage :: "Clock \<Rightarrow> ApiResult \<Rightarrow> Message" where
  "modelMessage clk res =
     \<lparr>m_id = toString (clk 0 + 1), m_role = Model,
      m_text = Some (case a_text res of
                       None \<Rightarrow> defaultResultText
                     | Some t \<Rightarrow> if t = [] then defaultResultText else t),
      m_imageUrl = (case a_imageUrl res of
                      None \<Rightarrow> None
                    | Some url \<Rightarrow> if url = [] then None else Some url),
      m_originalImageUrl = None, m_isThinking = None, m_timestamp = clk 1\<rparr>"


definition nextImageContext ::
  "(string \<Rightarrow> string) \<Rightarrow> SendClosure \<Rightarrow> ApiResult \<Rightarrow> ImageFile option" where
  "nextImageContext ex c res =
     (case a_imageUrl res of
        None \<Rightarrow> (case c_selectedImage c of Some img \<Rightarrow> Some img | None \<Rightarrow> c_lastImage c)
      | Some url \<Rightarrow>
          if url = []
          then (case c_selectedImage c of Some img \<Rightarrow> Some img | None \<Rightarrow> c_lastImage c)
          else Some \<lparr>fileObj = None, previewUrl = url, base64 = ex url,
                     mimeType = ''image/png''\<rparr>)"

section \<open>An example state\<close>

text \<open>
  A state for the worked examples: the first session, an uploaded image and a typed prompt.
  It is the world that two events lead to from the initial one.
\<close>

definition demoImage :: ImageFile where
  "demoImage = \<lparr>fileObj = Some 1, previewUrl = ''blob:1'', base64 = ''QUJD'',
     mimeType = ''image/png''\<rparr>"

definition demoSession :: ChatSession where
  "demoSession =
     \<lparr>s_id = ''default'', s_title = ''New Project'',
      s_messages = [\<lparr>m_id = ''welcome'', m_role = Model, m_text = Some welcomeText,
                      m_imageUrl = None, m_originalImageUrl = None, m_isThinking = None,
                      m_timestamp = 0\<rparr>],
      s_lastImage = None, s_updatedAt = 0\<rparr>"

definition demoState :: AppState where
  "demoState =
     \<lparr>currentView = Chat, sidebarOpen = True, sessions = [demoSession],
      currentSessionId = ''default'', gallery = [], inputText = ''make it red'',
      selectedImage = Some demoImage, isLoading = False\<rparr>"

definition demoEvents :: "Event list" where
  "demoEvents =
     [FileChosen (Some \<lparr>pf_handle = 1, pf_type = ''image/png''\<rparr>) (Some ''QUJD'') ''blob:1'',
      TypeText ''make it red'']"

definition demoWorld :: World where
  "demoWorld = \<lparr>app = demoState, pendingCalls = [], pendingTimers = []\<rparr>"

section \<open>Runs in which another event overtakes a send\<close>
















section \<open>An example state with an image remembered\<close>






section \<open>Properties of updateSession\<close>

lemma length_updateSession [simp]:
  "length (updateSession now sid u ss) = length ss"
  by (simp add: updateSession_def)

lemma nth_updateSession:
  "i < length ss \<Longrightarrow>
   updateSession now sid u ss ! i =
     (if s_id (ss ! i) = sid then mergeSession (ss ! i) u now else ss ! i)"
  by (simp add: updateSession_def)

text \<open>
  Claim C5. \<open>updateSession\<close> keeps the length of the session list. At every position,
  a session whose id differs from the given one is the same record as before, and a session
  whose id matches is replaced by the merge: each field named in the partial update takes
  the given value, each field not named keeps its old value, and \<open>updatedAt\<close> is the
  current time, also when the update names another \<open>updatedAt\<close>.
\<close>

theorem updateSession_frame:
  "length (updateSession now sid u ss) = length ss \<and>
   (\<forall>i < length ss.
      (s_id (ss ! i) \<noteq> sid \<longrightarrow> updateSession now sid u ss ! i = ss ! i) \<and>
      (s_id (ss ! i) = sid \<longrightarrow>
         (let s = ss ! i; s' = updateSession now sid u ss ! i in
            s_id s' = (case u_id u of None \<Rightarrow> s_id s | Some v \<Rightarrow> v) \<and>
            s_title s' = (case u_title u of None \<Rightarrow> s_title s | Some v \<Rightarrow> v) \<and>
            s_messages s' = (case u_messages u of None \<Rightarrow> s_messages s | Some v \<Rightarrow> v) \<and>
            s_lastImage s' = (case u_lastImage u of None \<Rightarrow> s_lastImage s | Some v \<Rightarrow> v) \<and>
            s_updatedAt s' = now)))"
  by (simp add: nth_updateSession mergeSession_def Let_def)

theorem updateSession_frame_witness:
  "(let ss = [\<lparr>s_id = ''a'', s_title = ''one'', s_messages = [], s_lastImage = None,
               s_updatedAt = 1\<rparr>,
              \<lparr>s_id = ''b'', s_title = ''two'', s_messages = [], s_lastImage = None,
               s_updatedAt = 2\<rparr>];
        ss' = updateSession 7 ''b'' (noUpdates\<lparr>u_title := Some ''new''\<rparr>) ss
    in length ss' = 2 \<and> ss' ! 0 = ss ! 0 \<and> s_id (ss' ! 1) = ''b'' \<and>
       s_title (ss' ! 1) = ''new'' \<and> s_messages (ss' ! 1) = [] \<and>
       s_lastImage (ss' ! 1) = None \<and> s_updatedAt (ss' ! 1) = 7)"
  using updateSession_frame [of 7 "''b''" "noUpdates\<lparr>u_title := Some ''new''\<rparr>"
      "[\<lparr>s_id = ''a'', s_title = ''one'', s_messages = [], s_lastImage = None,
         s_updatedAt = 1\<rparr>,
        \<lparr>s_id = ''b'', s_title = ''two'', s_messages = [], s_lastImage = None,
         s_updatedAt = 2\<rparr>]"]
  by (simp add: noUpdates_def Let_def All_less_Suc)

section \<open>The example state\<close>

lemma demo_run: "run ex demoEvents (initialWorld (\<lambda>k. 0)) = Some demoWorld"
  by (simp add: demoEvents_def demoWorld_def demoState_def demoSession_def demoImage_def
        fire_def handleFileSelect_def textAreaDisabled_def initialWorld_def initialState_def)


section \<open>Invariants: proofs\<close>

lemma s_id_mergeSession: "u_id u = None \<Longrightarrow> s_id (mergeSession s u now) = s_id s"
  by (simp add: mergeSession_def)

lemma ids_updateSession:
  "u_id u = None \<Longrightarrow> map s_id (updateSession now sid u ss) = map s_id ss"
  by (induction ss) (simp_all add: updateSession_def s_id_mergeSession)


lemma find_id_Some:
  "sid \<in> set (map s_id ss) \<Longrightarrow> \<exists>s. find (\<lambda>s. s_id s = sid) ss = Some s \<and> s_id s = sid \<and> s \<in> set ss"
  by (induction ss) auto

lemma currentSession_wellFormed:
  "wellFormed st \<Longrightarrow>
   currentSession st = find (\<lambda>s. s_id s = currentSessionId st) (sessions st) \<and>
   (\<exists>cur. currentSession st = Some cur \<and> s_id cur = currentSessionId st)"
  using find_id_Some [of "currentSessionId st" "sessions st"]
  by (auto simp: wellFormed_def currentSession_def)

lemma noUpdates_id [simp]:
  "u_id noUpdates = None"
  by (simp add: noUpdates_def)

lemma handleSend_sync_cases:
  assumes "handleSend_sync clk st = Inr (st1, ph)"
  shows "map s_id (sessions st1) = map s_id (sessions st) \<and>
         currentSessionId st1 = currentSessionId st \<and>
         gallery st1 = gallery st \<and>
         (case ph of Awaiting req c \<Rightarrow> isLoading st1 | _ \<Rightarrow> isLoading st1 = isLoading st)"
  using assms
  by (auto simp: handleSend_sync_def Let_def ids_updateSession split: option.splits if_splits)

lemma handleSend_resume_frame:
  "map s_id (sessions (handleSend_resume ex clk c out st)) = map s_id (sessions st) \<and>
   currentSessionId (handleSend_resume ex clk c out st) = currentSessionId st \<and>
   \<not> isLoading (handleSend_resume ex clk c out st)"
  by (cases out) (simp_all add: handleSend_resume_def Let_def ids_updateSession)

lemma timerFires_frame:
  "map s_id (sessions (timerFires clk t st)) = map s_id (sessions st) \<and>
   currentSessionId (timerFires clk t st) = currentSessionId st \<and>
   isLoading (timerFires clk t st) = isLoading st"
  by (simp add: timerFires_def Let_def ids_updateSession)

lemma deleteSession_wellFormed:
  assumes "wellFormed st"
  shows "wellFormed (deleteSession clk sid st)"
proof (cases "filter (\<lambda>s. s_id s \<noteq> sid) (sessions st)")
  case Nil
  then show ?thesis
    by (simp add: wellFormed_def deleteSession_def defaultSession_def)
next
  case (Cons s0 rest)
  show ?thesis
  proof (cases "currentSessionId st = sid")
    case True
    with Cons show ?thesis
      by (simp add: wellFormed_def deleteSession_def)
  next
    case False
    from assms obtain s where "s \<in> set (sessions st)" "s_id s = currentSessionId st"
      by (auto simp: wellFormed_def)
    with False have "s \<in> set (filter (\<lambda>s. s_id s \<noteq> sid) (sessions st))"
      by simp
    with \<open>s_id s = currentSessionId st\<close>
    have "currentSessionId st \<in> s_id ` set (filter (\<lambda>s. s_id s \<noteq> sid) (sessions st))"
      by (metis imageI)
    with Cons False show ?thesis
      by (simp add: wellFormed_def deleteSession_def)
  qed
qed

lemma createNewSession_wellFormed: "wellFormed (createNewSession clk width st)"
  by (simp add: wellFormed_def createNewSession_def Let_def)

lemma deleteFromGallery_frame:
  "map s_id (sessions (deleteFromGallery itemId st)) = map s_id (sessions st) \<and>
   currentSessionId (deleteFromGallery itemId st) = currentSessionId st \<and>
   isLoading (deleteFromGallery itemId st) = isLoading st"
  by (simp add: deleteFromGallery_def Let_def unlinkImage_def comp_def split: option.splits)

lemma handleFileSelect_frame:
  "sessions (handleFileSelect picked encoded url st) = sessions st \<and>
   currentSessionId (handleFileSelect picked encoded url st) = currentSessionId st \<and>
   isLoading (handleFileSelect picked encoded url st) = isLoading st"
  by (simp add: handleFileSelect_def split: option.splits)

lemma wellFormed_frame:
  "map s_id (sessions st') = map s_id (sessions st) \<Longrightarrow>
   currentSessionId st' = currentSessionId st \<Longrightarrow> wellFormed st \<Longrightarrow> wellFormed st'"
  by (simp add: wellFormed_def del: set_map)

lemma startSend_wellFormed:
  assumes "startSend clk w = Some w'" and "wellFormed (app w)"
  shows "wellFormed (app w')"
proof -
  from assms(1) obtain ph where "handleSend_sync clk (app w) = Inr (app w', ph)"
    by (auto simp: startSend_def split: sum.splits SendPhase.splits)
  from handleSend_sync_cases [OF this] assms(2) show ?thesis
    by (auto intro: wellFormed_frame)
qed

lemma fire_wellFormed:
  assumes "fire ex ev w = Some w'" and "wellFormed (app w)"
  shows "wellFormed (app w')"
proof (cases ev)
  case (ClickNewProject clk width)
  with assms show ?thesis by (auto simp: fire_def createNewSession_wellFormed)
next
  case (ClickSession sid width)
  with assms show ?thesis
    by (auto simp: fire_def wellFormed_def switchSession_def split: if_splits)
next
  case (ClickDeleteSession clk sid)
  with assms show ?thesis
    by (auto simp: fire_def deleteSession_wellFormed split: if_splits)
next
  case (ClickDeleteFromGallery itemId)
  with assms show ?thesis
    by (auto simp: fire_def deleteFromGallery_frame intro: wellFormed_frame)
next
  case (FileChosen picked encoded url)
  with assms show ?thesis
    by (auto simp: fire_def handleFileSelect_frame intro: wellFormed_frame)
next
  case ClickRemoveImage
  with assms show ?thesis
    by (auto simp: fire_def wellFormed_def handleRemoveImage_def)
next
  case (TypeText s)
  with assms show ?thesis
    by (auto simp: fire_def wellFormed_def split: if_splits)
next
  case (ClickSend clk)
  with assms show ?thesis
    by (auto simp: fire_def split: if_splits dest: startSend_wellFormed)
next
  case (PressEnter clk)
  with assms show ?thesis
    by (auto simp: fire_def split: if_splits dest: startSend_wellFormed)
next
  case (PromiseSettles i outcome clk)
  with assms show ?thesis
    by (auto simp: fire_def handleSend_resume_frame split: if_splits intro: wellFormed_frame)
next
  case (TimeoutElapses i clk)
  with assms show ?thesis
    by (auto simp: fire_def timerFires_frame split: if_splits intro: wellFormed_frame)
next
  case (ShowView v)
  with assms show ?thesis by (auto simp: fire_def wellFormed_def)
next
  case (SetSidebar b)
  with assms show ?thesis by (auto simp: fire_def wellFormed_def)
qed

lemma run_wellFormed:
  "run ex evs w = Some w' \<Longrightarrow> wellFormed (app w) \<Longrightarrow> wellFormed (app w')"
  by (induction evs arbitrary: w) (auto split: option.splits dest: fire_wellFormed)

lemma initialWorld_wellFormed: "wellFormed (app (initialWorld clk))"
  by (simp add: initialWorld_def initialState_def wellFormed_def)


lemma isLoading_deleteSession [simp]: "isLoading (deleteSession clk sid st) = isLoading st"
  by (simp add: deleteSession_def Let_def split: list.splits)

lemma isLoading_createNewSession [simp]: "isLoading (createNewSession clk width st) = isLoading st"
  by (simp add: createNewSession_def Let_def)

lemma startSend_oneInFlight:
  assumes "startSend clk w = Some w'" and "\<not> isLoading (app w)" and "oneInFlight w"
  shows "oneInFlight w'"
proof -
  from assms(2,3) have idle: "pendingCalls w = []"
    by (simp add: oneInFlight_def)
  from assms(1) obtain st1 ph where sync: "handleSend_sync clk (app w) = Inr (st1, ph)"
    by (auto simp: startSend_def split: sum.splits)
  show ?thesis
  proof (cases ph)
    case Returned
    with sync assms handleSend_sync_cases [OF sync] show ?thesis
      by (auto simp: startSend_def oneInFlight_def)
  next
    case (Scheduled t)
    with sync assms handleSend_sync_cases [OF sync] show ?thesis
      by (auto simp: startSend_def oneInFlight_def)
  next
    case (Awaiting req c)
    with sync assms(1) idle handleSend_sync_cases [OF sync] show ?thesis
      by (auto simp: startSend_def oneInFlight_def)
  qed
qed

lemma fire_oneInFlight:
  assumes "fire ex ev w = Some w'" and "oneInFlight w"
  shows "oneInFlight w'"
proof (cases ev)
  case (ClickNewProject clk width)
  with assms show ?thesis by (auto simp: fire_def oneInFlight_def)
next
  case (ClickSession sid width)
  with assms show ?thesis
    by (auto simp: fire_def oneInFlight_def switchSession_def split: if_splits)
next
  case (ClickDeleteSession clk sid)
  with assms show ?thesis
    by (auto simp: fire_def oneInFlight_def split: if_splits)
next
  case (ClickDeleteFromGallery itemId)
  with assms show ?thesis
    by (auto simp: fire_def oneInFlight_def deleteFromGallery_frame)
next
  case (FileChosen picked encoded url)
  with assms show ?thesis
    by (auto simp: fire_def oneInFlight_def handleFileSelect_frame)
next
  case ClickRemoveImage
  with assms show ?thesis
    by (auto simp: fire_def oneInFlight_def handleRemoveImage_def)
next
  case (TypeText s)
  with assms show ?thesis
    by (auto simp: fire_def oneInFlight_def split: if_splits)
next
  case (ClickSend clk)
  with assms have "startSend clk w = Some w'" and "\<not> isLoading (app w)"
    by (auto simp: fire_def sendDisabled_def split: if_splits)
  with assms(2) show ?thesis by (rule_tac startSend_oneInFlight)
next
  case (PressEnter clk)
  with assms have "startSend clk w = Some w'" and "\<not> isLoading (app w)"
    by (auto simp: fire_def textAreaDisabled_def split: if_splits)
  with assms(2) show ?thesis by (rule_tac startSend_oneInFlight)
next
  case (PromiseSettles i outcome clk)
  with assms have i: "i < length (pendingCalls w)"
    and w': "w' = w\<lparr>app := handleSend_resume ex clk (pendingCalls w ! i) outcome (app w),
                     pendingCalls := dropAt i (pendingCalls w)\<rparr>"
    by (auto simp: fire_def split: if_splits)
  from i assms(2) obtain c where "pendingCalls w = [c]" and "i = 0"
    by (cases "pendingCalls w") (auto simp: oneInFlight_def)
  with w' show ?thesis
    by (simp add: oneInFlight_def dropAt_def handleSend_resume_frame)
next
  case (TimeoutElapses i clk)
  with assms show ?thesis
    by (auto simp: fire_def oneInFlight_def timerFires_frame split: if_splits)
next
  case (ShowView v)
  with assms show ?thesis by (auto simp: fire_def oneInFlight_def)
next
  case (SetSidebar b)
  with assms show ?thesis by (auto simp: fire_def oneInFlight_def)
qed

lemma run_oneInFlight:
  "run ex evs w = Some w' \<Longrightarrow> oneInFlight w \<Longrightarrow> oneInFlight w'"
  by (induction evs arbitrary: w) (auto split: option.splits dest: fire_oneInFlight)

lemma initialWorld_oneInFlight: "oneInFlight (initialWorld clk)"
  by (simp add: initialWorld_def initialState_def oneInFlight_def)

text \<open>
  Claim C6. In every world that the event loop reaches from the initial one, at most one
  call to the service is pending, and \<open>isLoading\<close> is true exactly while one is: the
  part of \<open>handleSend\<close> that makes the call sets it, and only the continuation of that
  call resets it. While it is true the send button, the upload button and the text area are
  disabled. So in a world with a pending call neither the send button nor the Enter key
  reaches \<open>handleSend\<close>, and no event that can happen adds a call.
\<close>

theorem one_call_in_flight:
  assumes "run ex evs (initialWorld clk0) = Some w"
  shows "length (pendingCalls w) \<le> 1 \<and>
         (isLoading (app w) \<longleftrightarrow> pendingCalls w \<noteq> []) \<and>
         (isLoading (app w) \<longrightarrow>
            sendDisabled (app w) \<and> uploadDisabled (app w) \<and> textAreaDisabled (app w)) \<and>
         (pendingCalls w \<noteq> [] \<longrightarrow>
            (\<forall>clk. fire ex (ClickSend clk) w = None \<and> fire ex (PressEnter clk) w = None) \<and>
            (\<forall>ev w'. fire ex ev w = Some w' \<longrightarrow>
               length (pendingCalls w') \<le> length (pendingCalls w)))"
proof -
  from assms have inv: "oneInFlight w"
    by (rule run_oneInFlight) (rule initialWorld_oneInFlight)
  have blocked: "fire ex (ClickSend clk) w = None \<and> fire ex (PressEnter clk) w = None"
    if "pendingCalls w \<noteq> []" for clk
    using inv that
    by (simp add: oneInFlight_def fire_def sendDisabled_def textAreaDisabled_def)
  have bounded: "length (pendingCalls w') \<le> length (pendingCalls w)"
    if "pendingCalls w \<noteq> []" and "fire ex ev w = Some w'" for ev w'
  proof -
    from that(2) inv have "oneInFlight w'" by (rule fire_oneInFlight)
    with that(1) show ?thesis
      by (cases "pendingCalls w") (auto simp: oneInFlight_def)
  qed
  from inv have "length (pendingCalls w) \<le> 1 \<and>
         (isLoading (app w) \<longleftrightarrow> pendingCalls w \<noteq> []) \<and>
         (isLoading (app w) \<longrightarrow>
            sendDisabled (app w) \<and> uploadDisabled (app w) \<and> textAreaDisabled (app w))"
    by (auto simp: oneInFlight_def sendDisabled_def uploadDisabled_def textAreaDisabled_def)
  with blocked bounded show ?thesis by blast
qed


theorem one_call_in_flight_witness:
  "\<exists>w. run (\<lambda>u. u)
          [FileChosen (Some \<lparr>pf_handle = 1, pf_type = ''image/png''\<rparr>) (Some ''QUJD'') ''blob:1'',
           TypeText ''make it red'',
           ClickSend (\<lambda>k. 1000)]
          (initialWorld (\<lambda>k. 0)) = Some w \<and>
        length (pendingCalls w) = 1 \<and> isLoading (app w) \<and> sendDisabled (app w) \<and>
        fire (\<lambda>u. u) (PressEnter (\<lambda>k. 2000)) w = None \<and>
        (\<forall>ev w'. fire (\<lambda>u. u) ev w = Some w' \<longrightarrow> length (pendingCalls w') \<le> 1)"
proof -
  let ?evs = "[FileChosen (Some \<lparr>pf_handle = 1, pf_type = ''image/png''\<rparr>) (Some ''QUJD'') ''blob:1'',
               TypeText ''make it red'', ClickSend (\<lambda>k. 1000)]"
  have "\<exists>w. run (\<lambda>u. u) ?evs (initialWorld (\<lambda>k. 0)) = Some w \<and> pendingCalls w \<noteq> []"
    by (simp add: fire_def startSend_def handleSend_sync_def handleFileSelect_def
          initialWorld_def initialState_def currentSession_def imageToUse_def
          sendDisabled_def textAreaDisabled_def trim_def isWhiteSpace_def Let_def)
  then obtain w where r: "run (\<lambda>u. u) ?evs (initialWorld (\<lambda>k. 0)) = Some w"
    and p: "pendingCalls w \<noteq> []" by blast
  from one_call_in_flight [OF r] p have "length (pendingCalls w) = 1"
    by (cases "pendingCalls w") auto
  with one_call_in_flight [OF r] p r show ?thesis
    by (auto simp: fire_def)
qed

section \<open>Sessions\<close>

lemma deleteSession_cases:
  "(let rest = filter (\<lambda>s. s_id s \<noteq> sid) (sessions st); st' = deleteSession clk sid st in
      sessions st' \<noteq> [] \<and> currentSession st' \<noteq> None \<and>
      (rest \<noteq> [] \<longrightarrow>
         sessions st' = rest \<and>
         (currentSessionId st = sid \<longrightarrow>
            currentSessionId st' = s_id (hd rest) \<and> currentSession st' = Some (hd rest)) \<and>
         (currentSessionId st \<noteq> sid \<longrightarrow> currentSessionId st' = currentSessionId st)) \<and>
      (rest = [] \<longrightarrow>
         sessions st' = [defaultSession clk] \<and>
         currentSessionId st' = s_id (defaultSession clk) \<and>
         currentSession st' = Some (defaultSession clk)))"
proof (cases "filter (\<lambda>s. s_id s \<noteq> sid) (sessions st)")
  case Nil
  then show ?thesis
    by (simp add: deleteSession_def currentSession_def defaultSession_def)
next
  case (Cons s0 rest)
  then show ?thesis
    by (auto simp: deleteSession_def currentSession_def Let_def split: option.splits)
qed

lemma defaultSession_welcome:
  "\<exists>m. s_messages (defaultSession clk) = [m] \<and> m_id m = ''welcome'' \<and> m_role m = Model \<and>
       m_text m = Some defaultWelcomeText"
  by (simp add: defaultSession_def)

text \<open>
  Claim C9. In every world that the event loop reaches, the session list is not empty, the
  id of the current session is the id of a session in the list, and line 44 yields a
  session. Deleting a session, whatever the id, leaves a state with a session list that is
  not empty and a current session: if sessions remain they are the new list, and if the
  deleted one was current the first of them is current; if none remains, the list is one
  fresh default session with the welcome message of the model, and it is current.
\<close>

theorem sessions_never_empty:
  assumes "run ex evs (initialWorld clk0) = Some w"
  shows "sessions (app w) \<noteq> [] \<and>
         currentSession (app w) \<noteq> None \<and>
         currentSessionId (app w) \<in> set (map s_id (sessions (app w))) \<and>
         (\<forall>clk sid.
            let st = app w; rest = filter (\<lambda>s. s_id s \<noteq> sid) (sessions st);
                st' = deleteSession clk sid st
            in sessions st' \<noteq> [] \<and> currentSession st' \<noteq> None \<and>
               (rest \<noteq> [] \<longrightarrow>
                  sessions st' = rest \<and>
                  (currentSessionId st = sid \<longrightarrow>
                     currentSessionId st' = s_id (hd rest) \<and>
                     currentSession st' = Some (hd rest))) \<and>
               (rest = [] \<longrightarrow>
                  sessions st' = [defaultSession clk] \<and>
                  currentSessionId st' = s_id (defaultSession clk) \<and>
                  currentSession st' = Some (defaultSession clk) \<and>
                  (\<exists>m. s_messages (defaultSession clk) = [m] \<and> m_id m = ''welcome'' \<and>
                       m_role m = Model \<and> m_text m = Some defaultWelcomeText)))"
proof -
  from assms have wf: "wellFormed (app w)"
    by (rule run_wellFormed) (rule initialWorld_wellFormed)
  then have "sessions (app w) \<noteq> []"
    by (auto simp: wellFormed_def)
  moreover from wf obtain cur where "currentSession (app w) = Some cur"
    using currentSession_wellFormed by blast
  then have "currentSession (app w) \<noteq> None" by simp
  moreover from wf have "currentSessionId (app w) \<in> set (map s_id (sessions (app w)))"
    by (simp add: wellFormed_def)
  moreover have "\<And>clk sid.
            let st = app w; rest = filter (\<lambda>s. s_id s \<noteq> sid) (sessions st);
                st' = deleteSession clk sid st
            in sessions st' \<noteq> [] \<and> currentSession st' \<noteq> None \<and>
               (rest \<noteq> [] \<longrightarrow>
                  sessions st' = rest \<and>
                  (currentSessionId st = sid \<longrightarrow>
                     currentSessionId st' = s_id (hd rest) \<and>
                     currentSession st' = Some (hd rest))) \<and>
               (rest = [] \<longrightarrow>
                  sessions st' = [defaultSession clk] \<and>
                  currentSessionId st' = s_id (defaultSession clk) \<and>
                  currentSession st' = Some (defaultSession clk) \<and>
                  (\<exists>m. s_messages (defaultSession clk) = [m] \<and> m_id m = ''welcome'' \<and>
                       m_role m = Model \<and> m_text m = Some defaultWelcomeText))"
    using deleteSession_cases defaultSession_welcome
    by (simp add: Let_def)
  ultimately show ?thesis by blast
qed

theorem sessions_never_empty_witness:
  "sessions (app demoWorld) \<noteq> [] \<and>
   currentSession (app demoWorld) \<noteq> None \<and>
   sessions (deleteSession (\<lambda>k. 500) ''default'' (app demoWorld)) =
     [defaultSession (\<lambda>k. 500)] \<and>
   currentSession (deleteSession (\<lambda>k. 500) ''default'' (app demoWorld)) =
     Some (defaultSession (\<lambda>k. 500)) \<and>
   sessions (deleteSession (\<lambda>k. 500) ''other'' (app demoWorld)) = sessions (app demoWorld)"
proof -
  note t = sessions_never_empty [OF demo_run]
  from t have always: "\<And>clk sid.
      let st = app demoWorld; rest = filter (\<lambda>s. s_id s \<noteq> sid) (sessions st);
          st' = deleteSession clk sid st
      in sessions st' \<noteq> [] \<and> currentSession st' \<noteq> None \<and>
         (rest \<noteq> [] \<longrightarrow>
            sessions st' = rest \<and>
            (currentSessionId st = sid \<longrightarrow>
               currentSessionId st' = s_id (hd rest) \<and> currentSession st' = Some (hd rest))) \<and>
         (rest = [] \<longrightarrow>
            sessions st' = [defaultSession clk] \<and>
            currentSessionId st' = s_id (defaultSession clk) \<and>
            currentSession st' = Some (defaultSession clk) \<and>
            (\<exists>m. s_messages (defaultSession clk) = [m] \<and> m_id m = ''welcome'' \<and>
                 m_role m = Model \<and> m_text m = Some defaultWelcomeText))"
    by blast
  from t always [of "''default''" "\<lambda>k. 500"] always [of "''other''" "\<lambda>k. 500"]
  show ?thesis
    by (simp add: Let_def demoWorld_def demoState_def demoSession_def)
qed

section \<open>handleSend: the early return\<close>

text \<open>
  Claim C10. When the trimmed input is empty, no image is selected and the current session
  remembers no image, \<open>handleSend\<close> returns the state it was called in, unchanged in
  every field, makes no call to the service and sets no timer.
\<close>

theorem handleSend_noop:
  assumes "currentSession st = Some cur"
      and "trim (inputText st) = []"
      and "selectedImage st = None"
      and "s_lastImage cur = None"
  shows "handleSend ex clk clk' api st = Inr (st, [], None)"
  using assms
  by (simp add: handleSend_def handleSend_sync_def imageToUse_def)

theorem handleSend_noop_witness:
  "handleSend (drop 22) (\<lambda>k. 1000) (\<lambda>k. 2000) (\<lambda>req. Rejected)
     (demoState\<lparr>inputText := ''  '', selectedImage := None\<rparr>) =
   Inr (demoState\<lparr>inputText := ''  '', selectedImage := None\<rparr>, [], None)"
proof -
  let ?st = "demoState\<lparr>inputText := ''  '', selectedImage := None\<rparr>"
  have "currentSession ?st = Some demoSession"
    by (simp add: demoState_def currentSession_def demoSession_def)
  moreover have "trim (inputText ?st) = []"
    by (simp add: trim_def isWhiteSpace_def)
  moreover have "selectedImage ?st = None" by simp
  moreover have "s_lastImage demoSession = None" by (simp add: demoSession_def)
  ultimately show ?thesis by (rule handleSend_noop)
qed

section \<open>handleSend: the part before the await\<close>




lemma handleSend_sync_await:
  assumes "currentSession st = Some cur" and "imageToUse st cur = Some img"
  shows "handleSend_sync clk st =
           Inr (st\<lparr>sessions :=
                      updateSession (clk 2) (currentSessionId st)
                        (noUpdates\<lparr>u_messages := Some (s_messages cur @ [userMessage clk st]),
                                   u_title := Some (newTitle st cur)\<rparr>)
                        (sessions st),
                    inputText := [], selectedImage := None, isLoading := True\<rparr>,
                Awaiting (requestFor (inputText st) img)
                  \<lparr>c_sessionId = currentSessionId st, c_lastImage = s_lastImage cur,
                   c_selectedImage = selectedImage st,
                   c_updatedMessages = s_messages cur @ [userMessage clk st],
                   c_prompt = inputText st\<rparr>)"
  using assms
  by (simp add: handleSend_sync_def Let_def userMessage_def newTitle_def)

lemma handleSend_sync_calls:
  assumes "handleSend_sync clk st = Inr (st1, Awaiting req c)"
  shows "\<exists>cur img. currentSession st = Some cur \<and> imageToUse st cur = Some img \<and>
           req = requestFor (inputText st) img"
  using assms
  by (auto simp: handleSend_sync_def Let_def split: option.splits if_splits)

section \<open>handleSend: the continuation\<close>

lemma truthy_cases:
  "truthy x \<longleftrightarrow> (\<exists>s. x = Some s \<and> s \<noteq> [])"
  by (cases x) auto

lemma modelMessage_eq:
  "\<lparr>m_id = toString (clk 0 + 1), m_role = Model,
    m_text = Some (if truthy (a_text res) then the (a_text res) else defaultResultText),
    m_imageUrl = (if truthy (a_imageUrl res) then a_imageUrl res else None),
    m_originalImageUrl = None, m_isThinking = None, m_timestamp = clk 1\<rparr> =
   modelMessage clk res"
  by (cases "a_text res"; cases "a_imageUrl res") (simp_all add: modelMessage_def)

lemma resume_with_image:
  assumes "a_imageUrl res = Some url" and "url \<noteq> []"
  shows "handleSend_resume ex clk c (Resolved res) st =
           st\<lparr>gallery :=
                 \<lparr>g_id = toString (clk 2), g_imageUrl = url, g_prompt = c_prompt c,
                  g_timestamp = clk 3, g_messageId = Some (m_id (modelMessage clk res)),
                  g_sessionId = Some (c_sessionId c)\<rparr> # gallery st,
               sessions :=
                 updateSession (clk 4) (c_sessionId c)
                   (noUpdates\<lparr>u_messages := Some (c_updatedMessages c @ [modelMessage clk res]),
                              u_lastImage := Some (nextImageContext ex c res)\<rparr>)
                   (sessions st),
               isLoading := False\<rparr>"
proof -
  have "m_id (modelMessage clk res) = toString (clk 0 + 1)"
    by (simp add: modelMessage_def)
  with assms show ?thesis
    unfolding handleSend_resume_def Let_def modelMessage_eq
    by (simp add: nextImageContext_def)
qed

lemma resume_without_image:
  assumes "\<not> truthy (a_imageUrl res)"
  shows "handleSend_resume ex clk c (Resolved res) st =
           st\<lparr>sessions :=
                 updateSession (clk 2) (c_sessionId c)
                   (noUpdates\<lparr>u_messages := Some (c_updatedMessages c @ [modelMessage clk res]),
                              u_lastImage := Some (nextImageContext ex c res)\<rparr>)
                   (sessions st),
               isLoading := False\<rparr>"
proof -
  from assms have "nextImageContext ex c res =
      (case c_selectedImage c of Some img \<Rightarrow> Some img | None \<Rightarrow> c_lastImage c)"
    by (cases "a_imageUrl res") (simp_all add: nextImageContext_def)
  with assms show ?thesis
    unfolding handleSend_resume_def Let_def modelMessage_eq by simp
qed



lemma resume_gallery:
  "gallery (handleSend_resume ex clk c (Resolved res) st) =
     (case a_imageUrl res of
        None \<Rightarrow> gallery st
      | Some url \<Rightarrow>
          if url = [] then gallery st
          else \<lparr>g_id = toString (clk 2), g_imageUrl = url, g_prompt = c_prompt c,
                g_timestamp = clk 3, g_messageId = Some (m_id (modelMessage clk res)),
                g_sessionId = Some (c_sessionId c)\<rparr> # gallery st)"
proof (cases "truthy (a_imageUrl res)")
  case True
  then obtain url where "a_imageUrl res = Some url" "url \<noteq> []"
    by (auto simp: truthy_cases)
  then show ?thesis
    by (simp add: resume_with_image)
next
  case False
  then show ?thesis
    by (cases "a_imageUrl res") (simp_all add: resume_without_image)
qed












section \<open>The example runs\<close>






section \<open>What a send does\<close>















section \<open>The links of gallery items\<close>

lemma toString_not_empty: "toString n \<noteq> []"
  by (subst toString.simps) simp

lemma linked_frame:
  assumes "linked w"
      and "map s_id (sessions (app w')) = map s_id (sessions (app w))"
      and "currentSessionId (app w') = currentSessionId (app w)"
      and "set (gallery (app w')) \<subseteq> set (gallery (app w))"
      and "set (pendingCalls w') \<subseteq> set (pendingCalls w)"
  shows "linked w'"
  using assms unfolding linked_def by (simp del: set_map) blast

lemma startSend_linked:
  assumes "startSend clk w = Some w'" and "linked w"
  shows "linked w'"
proof -
  from assms(1) obtain st1 ph where sync: "handleSend_sync clk (app w) = Inr (st1, ph)"
    and w': "app w' = st1"
    by (auto simp: startSend_def split: sum.splits SendPhase.splits)
  note fr = handleSend_sync_cases [OF sync]
  show ?thesis
  proof (cases ph)
    case Returned
    with sync assms(1) have "pendingCalls w' = pendingCalls w"
      by (auto simp: startSend_def)
    with fr w' assms(2) show ?thesis by (rule_tac linked_frame [of w]) simp_all
  next
    case (Scheduled t)
    with sync assms(1) have "pendingCalls w' = pendingCalls w"
      by (auto simp: startSend_def)
    with fr w' assms(2) show ?thesis by (rule_tac linked_frame [of w]) simp_all
  next
    case (Awaiting req c)
    from handleSend_sync_calls [OF sync [unfolded Awaiting]] obtain cur img where
      "currentSession (app w) = Some cur" "imageToUse (app w) cur = Some img"
      by blast
    from handleSend_sync_await [OF this, of clk] sync Awaiting
    have "c_sessionId c = currentSessionId (app w)" by auto
    moreover from Awaiting sync assms(1) have "pendingCalls w' = pendingCalls w @ [c]"
      by (auto simp: startSend_def)
    ultimately show ?thesis
      using fr w' assms(2) unfolding linked_def by (simp del: set_map)
  qed
qed

lemma set_dropAt: "set (dropAt i xs) \<subseteq> set xs"
  by (auto simp: dropAt_def dest: in_set_takeD in_set_dropD)

lemma fire_linked:
  assumes "fire ex ev w = Some w'" and "linked w"
  shows "linked w'"
proof (cases ev)
  case (ClickNewProject clk width)
  with assms show ?thesis
    by (auto simp: fire_def linked_def createNewSession_def Let_def toString_not_empty)
next
  case (ClickSession sid width)
  with assms show ?thesis
    by (auto simp: fire_def linked_def switchSession_def split: if_splits)
next
  case (ClickDeleteSession clk sid)
  with assms have w': "w' = w\<lparr>app := deleteSession clk sid (app w)\<rparr>"
    by (auto simp: fire_def split: if_splits)
  show ?thesis
  proof (cases "filter (\<lambda>s. s_id s \<noteq> sid) (sessions (app w))")
    case Nil
    with w' assms(2) show ?thesis
      by (simp add: linked_def deleteSession_def defaultSession_def toString_not_empty)
  next
    case (Cons s0 rest)
    then have "set (s0 # rest) \<subseteq> set (sessions (app w))"
      by (metis filter_is_subset)
    with Cons w' assms(2) show ?thesis
      by (auto simp: linked_def deleteSession_def Let_def)
  qed
next
  case (ClickDeleteFromGallery itemId)
  with assms have w': "w' = w\<lparr>app := deleteFromGallery itemId (app w)\<rparr>"
    by (simp add: fire_def)
  have "set (gallery (deleteFromGallery itemId (app w))) \<subseteq> set (gallery (app w))"
    by (auto simp: deleteFromGallery_def Let_def split: option.splits)
  with w' assms(2) show ?thesis
    by (rule_tac linked_frame [of w]) (simp_all add: deleteFromGallery_frame)
next
  case (FileChosen picked encoded url)
  with assms have w': "w' = w\<lparr>app := handleFileSelect picked encoded url (app w)\<rparr>"
    by (simp add: fire_def)
  have "gallery (handleFileSelect picked encoded url st) = gallery st" for st
    by (simp add: handleFileSelect_def split: option.splits)
  with w' assms(2) show ?thesis
    by (rule_tac linked_frame [of w]) (simp_all add: handleFileSelect_frame)
next
  case ClickRemoveImage
  with assms show ?thesis
    by (auto simp: fire_def linked_def handleRemoveImage_def)
next
  case (TypeText s)
  with assms show ?thesis
    by (auto simp: fire_def linked_def split: if_splits)
next
  case (ClickSend clk)
  with assms show ?thesis
    by (auto simp: fire_def split: if_splits dest: startSend_linked)
next
  case (PressEnter clk)
  with assms show ?thesis
    by (auto simp: fire_def split: if_splits dest: startSend_linked)
next
  case (PromiseSettles i outcome clk)
  with assms have i: "i < length (pendingCalls w)"
    and w': "w' = w\<lparr>app := handleSend_resume ex clk (pendingCalls w ! i) outcome (app w),
                     pendingCalls := dropAt i (pendingCalls w)\<rparr>"
    by (auto simp: fire_def split: if_splits)
  let ?c = "pendingCalls w ! i"
  from i assms(2) have c: "c_sessionId ?c \<noteq> []"
    by (simp add: linked_def)
  have g: "\<forall>g \<in> set (gallery (handleSend_resume ex clk ?c outcome (app w))).
             truthy (g_sessionId g) \<and> truthy (g_messageId g)"
  proof (cases outcome)
    case (Resolved res)
    with c assms(2) show ?thesis
      by (auto simp: resume_gallery linked_def modelMessage_def toString_not_empty
               split: option.splits)
  next
    case Rejected
    with assms(2) show ?thesis
      by (simp add: handleSend_resume_def Let_def linked_def)
  qed
  with w' assms(2) set_dropAt [of i "pendingCalls w"] show ?thesis
    unfolding linked_def by (simp add: handleSend_resume_frame del: set_map) blast
next
  case (TimeoutElapses i clk)
  with assms have w': "w' = w\<lparr>app := timerFires clk (pendingTimers w ! i) (app w),
                     pendingTimers := dropAt i (pendingTimers w)\<rparr>"
    by (auto simp: fire_def split: if_splits)
  have "gallery (timerFires clk t st) = gallery st" for t st
    by (simp add: timerFires_def Let_def)
  with w' assms(2) show ?thesis
    by (rule_tac linked_frame [of w]) (simp_all add: timerFires_frame)
next
  case (ShowView v)
  with assms show ?thesis by (auto simp: fire_def linked_def)
next
  case (SetSidebar b)
  with assms show ?thesis by (auto simp: fire_def linked_def)
qed

lemma run_linked: "run ex evs w = Some w' \<Longrightarrow> linked w \<Longrightarrow> linked w'"
  by (induction evs arbitrary: w) (auto split: option.splits dest: fire_linked)

lemma reachable_gallery_linked:
  assumes "run ex evs (initialWorld clk0) = Some w" and "g \<in> set (gallery (app w))"
  shows "\<exists>sid mid. g_sessionId g = Some sid \<and> sid \<noteq> [] \<and> g_messageId g = Some mid \<and> mid \<noteq> []"
proof -
  have "linked (initialWorld clk0)"
    by (simp add: linked_def initialWorld_def initialState_def)
  with assms(1) have "linked w" by (rule run_linked)
  with assms(2) show ?thesis
    by (auto simp: linked_def truthy_cases)
qed

section \<open>deleteFromGallery: proofs\<close>

lemma filter_other_ids:
  "f x \<notin> f ` set xs \<Longrightarrow> filter (\<lambda>y. f y \<noteq> f x) xs = xs"
  by (induction xs) auto

lemma filter_remove1:
  "distinct (map f xs) \<Longrightarrow> x \<in> set xs \<Longrightarrow> filter (\<lambda>y. f y \<noteq> f x) xs = remove1 x xs"
proof (induction xs)
  case Nil
  then show ?case by simp
next
  case (Cons a xs)
  show ?case
  proof (cases "a = x")
    case True
    with Cons.prems have "f x \<notin> f ` set xs" by simp
    with True show ?thesis by (simp add: filter_other_ids)
  next
    case False
    with Cons.prems have "x \<in> set xs" and "f a \<noteq> f x" by auto
    with Cons False show ?thesis by simp
  qed
qed

lemma deleteFromGallery_unlinked:
  assumes "find (\<lambda>g. g_id g = itemId) (gallery st) = None \<or>
           (\<exists>it. find (\<lambda>g. g_id g = itemId) (gallery st) = Some it \<and>
                 \<not> (truthy (g_sessionId it) \<and> truthy (g_messageId it)))"
  shows "deleteFromGallery itemId st =
           st\<lparr>gallery := filter (\<lambda>g. g_id g \<noteq> itemId) (gallery st)\<rparr>"
  using assms by (auto simp: deleteFromGallery_def Let_def)

lemma deleteFromGallery_linked:
  assumes "find (\<lambda>g. g_id g = itemId) (gallery st) = Some it"
      and "truthy (g_sessionId it)" and "truthy (g_messageId it)"
  shows "deleteFromGallery itemId st =
           st\<lparr>gallery := filter (\<lambda>g. g_id g \<noteq> itemId) (gallery st),
               sessions := map (unlinkImage it) (sessions st)\<rparr>"
  using assms by (simp add: deleteFromGallery_def Let_def)

text \<open>
  Claim C8. \<open>deleteFromGallery\<close> keeps, in their order, the gallery items with another
  id and no item with the given id; when the ids of the gallery are distinct it removes
  exactly the one item with the given id. Nothing but the gallery and the sessions changes,
  and the number of sessions stays. If the item found has a session id and a message id,
  neither empty, then every session with another id is unchanged, and in a session with that
  id only the messages change: each message with another id is unchanged, and a message with
  that id differs from the old one only in its \<open>imageUrl\<close>, which is undefined. If
  there is no such item, or one of its two links is missing or empty, the sessions are
  unchanged. (In a world that the event loop reaches, every gallery item has both links and
  neither is empty: lemma \<open>reachable_gallery_linked\<close>.)
\<close>

theorem deleteFromGallery_effect:
  "(let st' = deleteFromGallery itemId st in
      gallery st' = filter (\<lambda>g. g_id g \<noteq> itemId) (gallery st) \<and>
      (\<forall>g. distinct (map g_id (gallery st)) \<and> g \<in> set (gallery st) \<and> g_id g = itemId \<longrightarrow>
           gallery st' = remove1 g (gallery st)) \<and>
      currentSessionId st' = currentSessionId st \<and> inputText st' = inputText st \<and>
      selectedImage st' = selectedImage st \<and> isLoading st' = isLoading st \<and>
      currentView st' = currentView st \<and> sidebarOpen st' = sidebarOpen st \<and>
      length (sessions st') = length (sessions st) \<and>
      (case find (\<lambda>g. g_id g = itemId) (gallery st) of
         None \<Rightarrow> sessions st' = sessions st
       | Some it \<Rightarrow>
           (case (g_sessionId it, g_messageId it) of
              (Some sid, Some mid) \<Rightarrow>
                if sid = [] \<or> mid = [] then sessions st' = sessions st
                else
                  (\<forall>i < length (sessions st).
                     let s = sessions st ! i; s' = sessions st' ! i in
                       (s_id s \<noteq> sid \<longrightarrow> s' = s) \<and>
                       (s_id s = sid \<longrightarrow>
                          s' = s\<lparr>s_messages := s_messages s'\<rparr> \<and>
                          length (s_messages s') = length (s_messages s) \<and>
                          (\<forall>j < length (s_messages s).
                             let m = s_messages s ! j; m' = s_messages s' ! j in
                               (m_id m \<noteq> mid \<longrightarrow> m' = m) \<and>
                               (m_id m = mid \<longrightarrow> m' = m\<lparr>m_imageUrl := None\<rparr>))))
            | _ \<Rightarrow> sessions st' = sessions st)))"
proof -
  let ?st' = "deleteFromGallery itemId st"
  have g: "gallery ?st' = filter (\<lambda>g. g_id g \<noteq> itemId) (gallery st)"
    by (simp add: deleteFromGallery_def Let_def split: option.splits)
  have r: "gallery ?st' = remove1 g (gallery st)"
    if "distinct (map g_id (gallery st))" "g \<in> set (gallery st)" "g_id g = itemId" for g
    using that g filter_remove1 [of g_id "gallery st" g] by simp
  have f: "currentSessionId ?st' = currentSessionId st \<and> inputText ?st' = inputText st \<and>
      selectedImage ?st' = selectedImage st \<and> isLoading ?st' = isLoading st \<and>
      currentView ?st' = currentView st \<and> sidebarOpen ?st' = sidebarOpen st \<and>
      length (sessions ?st') = length (sessions st)"
    by (simp add: deleteFromGallery_def Let_def split: option.splits)
  have s: "case find (\<lambda>g. g_id g = itemId) (gallery st) of
         None \<Rightarrow> sessions ?st' = sessions st
       | Some it \<Rightarrow>
           (case (g_sessionId it, g_messageId it) of
              (Some sid, Some mid) \<Rightarrow>
                if sid = [] \<or> mid = [] then sessions ?st' = sessions st
                else
                  (\<forall>i < length (sessions st).
                     let s = sessions st ! i; s' = sessions ?st' ! i in
                       (s_id s \<noteq> sid \<longrightarrow> s' = s) \<and>
                       (s_id s = sid \<longrightarrow>
                          s' = s\<lparr>s_messages := s_messages s'\<rparr> \<and>
                          length (s_messages s') = length (s_messages s) \<and>
                          (\<forall>j < length (s_messages s).
                             let m = s_messages s ! j; m' = s_messages s' ! j in
                               (m_id m \<noteq> mid \<longrightarrow> m' = m) \<and>
                               (m_id m = mid \<longrightarrow> m' = m\<lparr>m_imageUrl := None\<rparr>))))
            | _ \<Rightarrow> sessions ?st' = sessions st)"
  proof (cases "find (\<lambda>g. g_id g = itemId) (gallery st)")
    case None
    then show ?thesis by (simp add: deleteFromGallery_unlinked)
  next
    case (Some it)
    show ?thesis
    proof (cases "truthy (g_sessionId it) \<and> truthy (g_messageId it)")
      case False
      with Some have "deleteFromGallery itemId st =
           st\<lparr>gallery := filter (\<lambda>g. g_id g \<noteq> itemId) (gallery st)\<rparr>"
        by (simp add: deleteFromGallery_unlinked)
      with Some False show ?thesis
        by (cases "g_sessionId it"; cases "g_messageId it") auto
    next
      case True
      then obtain sid mid where l: "g_sessionId it = Some sid" "sid \<noteq> []"
          "g_messageId it = Some mid" "mid \<noteq> []"
        by (auto simp: truthy_cases)
      from Some True have "sessions ?st' = map (unlinkImage it) (sessions st)"
        by (simp add: deleteFromGallery_linked)
      with Some l show ?thesis
        by (simp add: Let_def unlinkImage_def clearImage_def)
    qed
  qed
  from g r f s show ?thesis
    unfolding Let_def by blast
qed

theorem deleteFromGallery_effect_witness:
  "(let st = demoState
             \<lparr>gallery := [\<lparr>g_id = ''7'', g_imageUrl = ''data:a'', g_prompt = ''p'',
                           g_timestamp = 7, g_messageId = Some ''welcome'',
                           g_sessionId = Some ''default''\<rparr>,
                          \<lparr>g_id = ''8'', g_imageUrl = ''data:b'', g_prompt = ''q'',
                           g_timestamp = 8, g_messageId = None, g_sessionId = None\<rparr>]\<rparr>;
        st' = deleteFromGallery ''7'' st
    in gallery st' = [\<lparr>g_id = ''8'', g_imageUrl = ''data:b'', g_prompt = ''q'',
                       g_timestamp = 8, g_messageId = None, g_sessionId = None\<rparr>] \<and>
       length (sessions st') = 1 \<and>
       s_messages (sessions st' ! 0) ! 0 = (s_messages demoSession ! 0)\<lparr>m_imageUrl := None\<rparr> \<and>
       sessions (deleteFromGallery ''8'' st) = sessions st)"
proof -
  let ?st = "demoState
             \<lparr>gallery := [\<lparr>g_id = ''7'', g_imageUrl = ''data:a'', g_prompt = ''p'',
                           g_timestamp = 7, g_messageId = Some ''welcome'',
                           g_sessionId = Some ''default''\<rparr>,
                          \<lparr>g_id = ''8'', g_imageUrl = ''data:b'', g_prompt = ''q'',
                           g_timestamp = 8, g_messageId = None, g_sessionId = None\<rparr>]\<rparr>"
  from deleteFromGallery_effect [of "''7''" ?st] deleteFromGallery_effect [of "''8''" ?st]
  show ?thesis
    by (simp add: Let_def demoState_def demoSession_def)
qed

end
